theory Spec2Isabelle
  imports Main
begin

section \<open>Values shared by the modules\<close>

text \<open>
  What a call can throw. \<open>Error_EMPTY_PROPERTY n\<close> is
  \<^verbatim>\<open>new Error(Errors.EMPTY_PROPERTY.replace("PROPERTY", n))\<close>; the two other
  \<open>Error_\<close> values are the plain errors of \<^verbatim>\<open>validateSchema\<close>.
\<close>

datatype exn =
    TypeError
  | RangeError_INVALID_NUMBER
  | Error_EMPTY_PROPERTY string
  | Error_INVALID_MIN_OVER_MAX
  | Error_INVALID_MIN_MAX

text \<open>
  Modelled from the spec: the regular expressions of the rule catalogue
  (\<^verbatim>\<open>rules.js\<close>, which is not among the sources). The spec gives what each expression
  tests, not its text, so an expression is named by what it tests.
\<close>

datatype regex =
    P_minLength int
  | P_maxLength int
  | P_digit
  | P_symbol
  | P_uppercase
  | P_lowercase
  | P_email
  | P_equals string

text \<open>
  Modelled from the spec: the messages of the rule catalogue (\<^verbatim>\<open>rules.js\<close>). The spec
  says that each rule has a fixed default message and that the length and match
  messages interpolate their argument; the texts are not given, so a default message is
  named by its rule and its argument. \<open>M_custom\<close> is a message given by the caller.
\<close>

datatype message =
    M_minLength int
  | M_maxLength int
  | M_digit
  | M_symbol
  | M_uppercase
  | M_lowercase
  | M_email
  | M_required
  | M_matches string
  | M_custom string

text \<open>
  An object of the rules mapping. The three fields are optional in the source:
  \<open>val\<close> is the \<^verbatim>\<open>value\<close> field (\<open>None\<close> when the object has none, which reads as
  \<^verbatim>\<open>undefined\<close>), \<open>pattern\<close> the expression (\<open>None\<close> for the object that
  \<^verbatim>\<open>matches\<close> builds).
\<close>

record entry =
  val :: "int option"
  pattern :: "regex option"
  error :: message

section \<open>The rule catalogue\<close>

definition char_between :: "nat \<Rightarrow> nat \<Rightarrow> char \<Rightarrow> bool" where
  "char_between lo hi c = (lo \<le> of_char c \<and> (of_char c :: nat) \<le> hi)"

definition is_white :: "char \<Rightarrow> bool" where
  "is_white c = (of_char c = (32::nat) \<or> char_between 9 13 c)"

definition is_symbol_char :: "char \<Rightarrow> bool" where
  "is_symbol_char c =
     (char_between 33 47 c \<or> char_between 58 64 c \<or> char_between 91 96 c \<or> char_between 123 126 c)"

definition email_shape :: "string \<Rightarrow> bool" where
  "email_shape s =
     (let local = takeWhile (\<lambda>c. c \<noteq> CHR ''@'') s;
          rest = dropWhile (\<lambda>c. c \<noteq> CHR ''@'') s;
          domain = tl rest;
          tld = rev (takeWhile (\<lambda>c. c \<noteq> CHR ''.'') (rev domain));
          host = rev (tl (dropWhile (\<lambda>c. c \<noteq> CHR ''.'') (rev domain)))
      in rest \<noteq> [] \<and> local \<noteq> [] \<and> CHR ''@'' \<notin> set domain \<and> CHR ''.'' \<in> set domain
         \<and> host \<noteq> [] \<and> tld \<noteq> [] \<and> \<not> list_ex is_white s)"

text \<open>
  Modelled from the spec: \<^verbatim>\<open>pattern.test(value)\<close> for the expressions of
  \<^verbatim>\<open>rules.js\<close>. The length expressions test "string length \<open>\<ge>\<close> n" and "\<open>\<le>\<close> n"; digit,
  symbol, uppercase and lowercase test the presence of one such character; the email
  expression tests a simple \<^verbatim>\<open>local@domain.tld\<close> shape; the match expression tests
  equality with the value it was built from. The character set of \<open>P_symbol\<close> (the
  ASCII punctuation) and the details of \<open>email_shape\<close> are a choice: the spec
  gives neither.
\<close>

fun test :: "regex \<Rightarrow> string \<Rightarrow> bool" where
  "test (P_minLength n) s = (n \<le> int (length s))"
| "test (P_maxLength n) s = (int (length s) \<le> n)"
| "test P_digit s = list_ex (char_between 48 57) s"
| "test P_symbol s = list_ex is_symbol_char s"
| "test P_uppercase s = list_ex (char_between 65 90) s"
| "test P_lowercase s = list_ex (char_between 97 122) s"
| "test P_email s = email_shape s"
| "test (P_equals v) s = (s = v)"

text \<open>
  Modelled from the spec: the constants and factories of \<^verbatim>\<open>rules.js\<close>. A rule
  descriptor is \<^verbatim>\<open>{ pattern, error }\<close>: it has no \<^verbatim>\<open>value\<close> field (the schema adds one
  itself where it wants one, as \<^verbatim>\<open>DEFAULT_RULES\<close> does). The length factories fail with
  a \<^verbatim>\<open>TypeError\<close> when the argument is not a non-negative number.
\<close>

definition DIGIT :: entry where
  "DIGIT = \<lparr>val = None, pattern = Some P_digit, error = M_digit\<rparr>"

definition SYMBOL :: entry where
  "SYMBOL = \<lparr>val = None, pattern = Some P_symbol, error = M_symbol\<rparr>"

definition UPPERCASE :: entry where
  "UPPERCASE = \<lparr>val = None, pattern = Some P_uppercase, error = M_uppercase\<rparr>"

definition LOWERCASE :: entry where
  "LOWERCASE = \<lparr>val = None, pattern = Some P_lowercase, error = M_lowercase\<rparr>"

definition EMAIL :: entry where
  "EMAIL = \<lparr>val = None, pattern = Some P_email, error = M_email\<rparr>"

definition REQUIRED :: entry where
  "REQUIRED = \<lparr>val = None, pattern = None, error = M_required\<rparr>"

definition getMinLengthRule :: "int \<Rightarrow> exn + entry" where
  "getMinLengthRule n =
     (if n < 0 then Inl TypeError
      else Inr \<lparr>val = None, pattern = Some (P_minLength n), error = M_minLength n\<rparr>)"

definition getMaxLengthRule :: "int \<Rightarrow> exn + entry" where
  "getMaxLengthRule n =
     (if n < 0 then Inl TypeError
      else Inr \<lparr>val = None, pattern = Some (P_maxLength n), error = M_maxLength n\<rparr>)"

definition getMatchesRule :: "string \<Rightarrow> string \<Rightarrow> entry" where
  "getMatchesRule v name = \<lparr>val = None, pattern = Some (P_equals v), error = M_matches name\<rparr>"

text \<open>
  Modelled from the spec: \<^verbatim>\<open>SCHEMA.DEFAULT_MIN\<close> of \<^verbatim>\<open>constants.js\<close>, the sentinel
  minimum, is 0 (a bound must be a number \<open>\<ge>\<close> 0). \<^verbatim>\<open>SCHEMA.DEFAULT_MAX\<close> is given
  nowhere: it is a parameter (\<open>dmax\<close>) of the initial \<^verbatim>\<open>DEFAULT_RULES\<close> below.
\<close>

definition DEFAULT_MIN :: int where
  "DEFAULT_MIN = 0"

section \<open>schema.js: the state\<close>

text \<open>
  \<^verbatim>\<open>DEFAULT_RULES\<close> is one module-level object with two objects in it. Every instance
  starts from \<^verbatim>\<open>{ rules: { ...DEFAULT_RULES } }\<close>, a shallow copy: until \<^verbatim>\<open>min\<close> or
  \<^verbatim>\<open>max\<close> replaces it, \<^verbatim>\<open>rules.minimum\<close> of every instance is the very object
  \<^verbatim>\<open>DEFAULT_RULES.minimum\<close>, and \<^verbatim>\<open>validateSchema\<close> writes to it. So the two default
  objects are a store of their own, passed to and returned by whatever reads or writes
  them, and a slot of an instance holds either a reference to the shared object or an
  object of its own.
\<close>

record defaults =
  DEFAULT_minimum :: entry
  DEFAULT_maximum :: entry

definition DEFAULT_RULES :: "int \<Rightarrow> defaults" where
  "DEFAULT_RULES dmax =
     \<lparr>DEFAULT_minimum =
        \<lparr>val = Some DEFAULT_MIN, pattern = Some (P_minLength DEFAULT_MIN),
         error = M_minLength DEFAULT_MIN\<rparr>,
      DEFAULT_maximum =
        \<lparr>val = Some dmax, pattern = Some (P_maxLength dmax), error = M_maxLength dmax\<rparr>\<rparr>"

datatype ref = Shared | Own entry

text \<open>
  The keys that the builder adds to \<^verbatim>\<open>rules\<close>, after \<^verbatim>\<open>minimum\<close> and \<^verbatim>\<open>maximum\<close>,
  which the copy of \<^verbatim>\<open>DEFAULT_RULES\<close> puts first and nothing deletes.
\<close>

datatype key = K_digit | K_symbol | K_uppercase | K_lowercase | K_email | K_matchingProperty

text \<open>
  The private field \<^verbatim>\<open>#schema\<close>. \<open>rules_other\<close> keeps the added keys in insertion
  order, the order of \<^verbatim>\<open>Object.keys\<close> and \<^verbatim>\<open>Object.values\<close>.
\<close>

record schema =
  rules_minimum :: ref
  rules_maximum :: ref
  rules_other :: "(key \<times> entry) list"
  schema_label :: "string option"
  schema_required :: "message option"
  schema_matchingProperty :: "string option"

definition new_Schema :: schema where
  "new_Schema =
     \<lparr>rules_minimum = Shared, rules_maximum = Shared, rules_other = [],
      schema_label = None, schema_required = None, schema_matchingProperty = None\<rparr>"

text \<open>\<^verbatim>\<open>rules[k] = e\<close>: an existing key keeps its place, a new key goes last.\<close>

fun assign :: "key \<Rightarrow> entry \<Rightarrow> (key \<times> entry) list \<Rightarrow> (key \<times> entry) list" where
  "assign k e [] = [(k, e)]"
| "assign k e ((k', e') # kvs) =
     (if k' = k then (k, e) # kvs else (k', e') # assign k e kvs)"

text \<open>
  Truthiness of an optional string argument or field: \<^verbatim>\<open>undefined\<close> and the empty
  string are falsy.
\<close>

definition truthy :: "string option \<Rightarrow> bool" where
  "truthy x = (case x of None \<Rightarrow> False | Some t \<Rightarrow> t \<noteq> [])"

text \<open>\<^verbatim>\<open>if (customError) { r.error = customError; }\<close>\<close>

definition with_customError :: "string option \<Rightarrow> entry \<Rightarrow> entry" where
  "with_customError customError r =
     (case customError of
        None \<Rightarrow> r
      | Some t \<Rightarrow> if t = [] then r else r\<lparr>error := M_custom t\<rparr>)"

section \<open>schema.js: the helper functions\<close>

text \<open>
  The arguments are typed here (a bound is an integer, a name is a string), so the
  \<^verbatim>\<open>TypeError\<close> of \<^verbatim>\<open>validateType\<close> has no input left to raise it. Modelled from
  the spec: \<^verbatim>\<open>isEmptyString\<close> of \<^verbatim>\<open>utils.js\<close>, which is not among the sources, holds of
  the empty string (a name must be a non-empty string).
\<close>

definition validateLength :: "int \<Rightarrow> exn + unit" where
  "validateLength v = (if v < DEFAULT_MIN then Inl RangeError_INVALID_NUMBER else Inr ())"

definition validateStringInput :: "string \<Rightarrow> string \<Rightarrow> exn + unit" where
  "validateStringInput v propertyName =
     (if v = [] then Inl (Error_EMPTY_PROPERTY propertyName) else Inr ())"

section \<open>schema.js: the builder\<close>

definition min_schema :: "int \<Rightarrow> string option \<Rightarrow> schema \<Rightarrow> exn + schema" where
  "min_schema v customError s =
     (case validateLength v of
        Inl e \<Rightarrow> Inl e
      | Inr _ \<Rightarrow>
          (case getMaxLengthRule v of
             Inl e \<Rightarrow> Inl e
           | Inr r \<Rightarrow> Inr (s\<lparr>rules_minimum := Own (with_customError customError r)\<rparr>)))"

definition max_schema :: "int \<Rightarrow> string option \<Rightarrow> schema \<Rightarrow> exn + schema" where
  "max_schema v customError s =
     (case validateLength v of
        Inl e \<Rightarrow> Inl e
      | Inr _ \<Rightarrow>
          (case getMaxLengthRule v of
             Inl e \<Rightarrow> Inl e
           | Inr r \<Rightarrow> Inr (s\<lparr>rules_maximum := Own (with_customError customError r)\<rparr>)))"

definition hasDigit :: "string option \<Rightarrow> schema \<Rightarrow> schema" where
  "hasDigit customError s =
     s\<lparr>rules_other := assign K_digit (with_customError customError DIGIT) (rules_other s)\<rparr>"

definition hasSymbol :: "string option \<Rightarrow> schema \<Rightarrow> schema" where
  "hasSymbol customError s =
     s\<lparr>rules_other := assign K_symbol (with_customError customError SYMBOL) (rules_other s)\<rparr>"

definition hasUppercase :: "string option \<Rightarrow> schema \<Rightarrow> schema" where
  "hasUppercase customError s =
     s\<lparr>rules_other :=
         assign K_uppercase (with_customError customError UPPERCASE) (rules_other s)\<rparr>"

text \<open>
  \<^verbatim>\<open>hasLowercase\<close> writes the custom message to \<^verbatim>\<open>rules.uppercase.error\<close>. Without an
  uppercase rule that is a write to a field of \<^verbatim>\<open>undefined\<close>, a \<^verbatim>\<open>TypeError\<close>.
\<close>

definition hasLowercase :: "string option \<Rightarrow> schema \<Rightarrow> exn + schema" where
  "hasLowercase customError s =
     (let rs = assign K_lowercase LOWERCASE (rules_other s) in
      if truthy customError then
        (case map_of rs K_uppercase of
           None \<Rightarrow> Inl TypeError
         | Some u \<Rightarrow>
             Inr (s\<lparr>rules_other := assign K_uppercase (with_customError customError u) rs\<rparr>))
      else Inr (s\<lparr>rules_other := rs\<rparr>))"

definition label_schema :: "string \<Rightarrow> schema \<Rightarrow> exn + schema" where
  "label_schema name s =
     (case validateStringInput name ''Label'' of
        Inl e \<Rightarrow> Inl e
      | Inr _ \<Rightarrow> Inr (s\<lparr>schema_label := Some name\<rparr>))"

definition isEmail :: "string option \<Rightarrow> schema \<Rightarrow> schema" where
  "isEmail customError s =
     s\<lparr>rules_other := assign K_email (with_customError customError EMAIL) (rules_other s)\<rparr>"

definition isRequired :: "string option \<Rightarrow> schema \<Rightarrow> schema" where
  "isRequired customError s =
     s\<lparr>schema_required :=
         Some (if truthy customError then M_custom (the customError) else error REQUIRED)\<rparr>"

definition matches :: "string \<Rightarrow> string option \<Rightarrow> schema \<Rightarrow> exn + schema" where
  "matches name customError s =
     (case validateStringInput name ''Matching property'' of
        Inl e \<Rightarrow> Inl e
      | Inr _ \<Rightarrow>
          (let err = error (getMatchesRule [] name) in
           Inr (s\<lparr>schema_matchingProperty := Some name,
                  rules_other :=
                    assign K_matchingProperty
                      (if truthy customError
                       then \<lparr>val = None, pattern = None, error = M_custom (the customError)\<rparr>
                       else \<lparr>val = None, pattern = None, error = err\<rparr>)
                      (rules_other s)\<rparr>)))"

subsection \<open>The getters of the bounds\<close>

definition minimum_object :: "defaults \<Rightarrow> schema \<Rightarrow> entry" where
  "minimum_object d s = (case rules_minimum s of Shared \<Rightarrow> DEFAULT_minimum d | Own e \<Rightarrow> e)"

definition maximum_object :: "defaults \<Rightarrow> schema \<Rightarrow> entry" where
  "maximum_object d s = (case rules_maximum s of Shared \<Rightarrow> DEFAULT_maximum d | Own e \<Rightarrow> e)"

text \<open>\<^verbatim>\<open>get minimum()\<close> and \<^verbatim>\<open>get maximum()\<close>; \<open>None\<close> is \<^verbatim>\<open>undefined\<close>.\<close>

definition minimum :: "defaults \<Rightarrow> schema \<Rightarrow> int option" where
  "minimum d s = val (minimum_object d s)"

definition maximum :: "defaults \<Rightarrow> schema \<Rightarrow> int option" where
  "maximum d s = val (maximum_object d s)"

section \<open>schema.js: validateSchema\<close>

text \<open>
  The object that \<^verbatim>\<open>validateSchema\<close> returns. A key that the source leaves out of
  the object (\<^verbatim>\<open>matchingProperty\<close> on the email path) reads as \<open>None\<close>, like a key
  whose value is \<^verbatim>\<open>undefined\<close>. \<open>rules\<close> holds the objects as they are when the
  call returns.
\<close>

record compiled =
  label :: "string option"
  required :: "message option"
  matchingProperty :: "string option"
  rules :: "entry list"

text \<open>
  A write to \<^verbatim>\<open>rules.minimum\<close> (or \<^verbatim>\<open>rules.maximum\<close>) lands in the shared default
  object when the instance still refers to it, and in the instance's own object
  otherwise.
\<close>

definition update_minimum :: "(entry \<Rightarrow> entry) \<Rightarrow> defaults \<Rightarrow> schema \<Rightarrow> defaults \<times> schema" where
  "update_minimum f d s =
     (case rules_minimum s of
        Shared \<Rightarrow> (d\<lparr>DEFAULT_minimum := f (DEFAULT_minimum d)\<rparr>, s)
      | Own e \<Rightarrow> (d, s\<lparr>rules_minimum := Own (f e)\<rparr>))"

definition update_maximum :: "(entry \<Rightarrow> entry) \<Rightarrow> defaults \<Rightarrow> schema \<Rightarrow> defaults \<times> schema" where
  "update_maximum f d s =
     (case rules_maximum s of
        Shared \<Rightarrow> (d\<lparr>DEFAULT_maximum := f (DEFAULT_maximum d)\<rparr>, s)
      | Own e \<Rightarrow> (d, s\<lparr>rules_maximum := Own (f e)\<rparr>))"

text \<open>
  \<^verbatim>\<open>a > b\<close> and \<^verbatim>\<open>a < b\<close> on values that are a number or \<^verbatim>\<open>undefined\<close>:
  \<^verbatim>\<open>undefined\<close> converts to \<^verbatim>\<open>NaN\<close>, and every comparison with \<^verbatim>\<open>NaN\<close> is false.
\<close>

definition js_gt :: "int option \<Rightarrow> int option \<Rightarrow> bool" where
  "js_gt a b = (case a of None \<Rightarrow> False | Some x \<Rightarrow> (case b of None \<Rightarrow> False | Some y \<Rightarrow> x > y))"

definition js_lt :: "int option \<Rightarrow> int option \<Rightarrow> bool" where
  "js_lt a b = (case a of None \<Rightarrow> False | Some x \<Rightarrow> (case b of None \<Rightarrow> False | Some y \<Rightarrow> x < y))"

text \<open>
  \<^verbatim>\<open>Object.keys(rules).length\<close> and \<^verbatim>\<open>Object.keys(DEFAULT_RULES).length\<close>.
\<close>

definition Object_keys_rules_length :: "schema \<Rightarrow> nat" where
  "Object_keys_rules_length s = 2 + length (rules_other s)"

definition Object_keys_DEFAULT_RULES_length :: nat where
  "Object_keys_DEFAULT_RULES_length = 2"

definition requiredChars :: "schema \<Rightarrow> int" where
  "requiredChars s = int (Object_keys_rules_length s) - int Object_keys_DEFAULT_RULES_length"

text \<open>
  The block \<^verbatim>\<open>if (minimum.value === SCHEMA.DEFAULT_MIN) { ... }\<close>: the three writes go
  to the object that \<^verbatim>\<open>rules.minimum\<close> refers to.
\<close>

definition derive_minimum :: "defaults \<Rightarrow> schema \<Rightarrow> exn + defaults \<times> schema" where
  "derive_minimum d s =
     (if val (minimum_object d s) = Some DEFAULT_MIN then
        (case getMinLengthRule (requiredChars s) of
           Inl e \<Rightarrow> Inl e
         | Inr minRule \<Rightarrow>
             Inr (update_minimum
                    (\<lambda>m. m\<lparr>val := Some (requiredChars s), error := error minRule,
                            pattern := pattern minRule\<rparr>) d s))
      else Inr (d, s))"

text \<open>\<^verbatim>\<open>delete rules.minimum.value; delete rules.maximum.value;\<close>\<close>

definition delete_values :: "defaults \<Rightarrow> schema \<Rightarrow> defaults \<times> schema" where
  "delete_values d s =
     (case update_minimum (\<lambda>m. m\<lparr>val := None\<rparr>) d s of
        (d1, s1) \<Rightarrow> update_maximum (\<lambda>m. m\<lparr>val := None\<rparr>) d1 s1)"

text \<open>\<^verbatim>\<open>Object.values(rules)\<close>\<close>

definition Object_values_rules :: "defaults \<Rightarrow> schema \<Rightarrow> entry list" where
  "Object_values_rules d s = minimum_object d s # maximum_object d s # map snd (rules_other s)"

text \<open>
  The result is the store and the instance after the call, and what the call returned
  or threw: the writes made before a \<^verbatim>\<open>throw\<close> stay. On the match path the key
  \<^verbatim>\<open>rules.matchingProperty\<close> is there whenever \<^verbatim>\<open>matchingProperty\<close> is set, since
  \<^verbatim>\<open>matches\<close> writes both (lemma \<open>inv_match_calls\<close>); the branch for its absence only
  makes the definition total.
\<close>

definition validateSchema :: "defaults \<Rightarrow> schema \<Rightarrow> (defaults \<times> schema) \<times> (exn + compiled)" where
  "validateSchema d s =
     (if truthy (schema_matchingProperty s) then
        ((d, s),
         Inr \<lparr>label = schema_label s, required = schema_required s,
              matchingProperty = schema_matchingProperty s,
              rules = (case map_of (rules_other s) K_matchingProperty of
                         None \<Rightarrow> [] | Some m \<Rightarrow> [m])\<rparr>)
      else
        (case map_of (rules_other s) K_email of
           Some e \<Rightarrow>
             ((d, s),
              Inr \<lparr>label = schema_label s, required = schema_required s,
                   matchingProperty = None, rules = [e]\<rparr>)
         | None \<Rightarrow>
             (case derive_minimum d s of
                Inl e \<Rightarrow> ((d, s), Inl e)
              | Inr (d1, s1) \<Rightarrow>
                  if js_gt (val (minimum_object d1 s1)) (val (maximum_object d1 s1))
                  then ((d1, s1), Inl Error_INVALID_MIN_OVER_MAX)
                  else if js_lt (val (maximum_object d1 s1)) (Some (requiredChars s1))
                          \<or> js_lt (val (minimum_object d1 s1)) (Some (requiredChars s1))
                  then ((d1, s1), Inl Error_INVALID_MIN_MAX)
                  else
                    (case delete_values d1 s1 of
                       (d2, s2) \<Rightarrow>
                         ((d2, s2),
                          Inr \<lparr>label = schema_label s2, required = schema_required s2,
                               matchingProperty = schema_matchingProperty s2,
                               rules = Object_values_rules d2 s2\<rparr>)))))"

section \<open>Call chains\<close>

text \<open>
  A builder call with its arguments, and a chain \<^verbatim>\<open>s.a(...).b(...)\<close>, which stops at
  the first call that throws.
\<close>

datatype call =
    Min int "string option"
  | Max int "string option"
  | HasDigit "string option"
  | HasSymbol "string option"
  | HasUppercase "string option"
  | HasLowercase "string option"
  | Label string
  | IsEmail "string option"
  | IsRequired "string option"
  | Matches string "string option"

fun apply_call :: "call \<Rightarrow> schema \<Rightarrow> exn + schema" where
  "apply_call (Min v ce) s = min_schema v ce s"
| "apply_call (Max v ce) s = max_schema v ce s"
| "apply_call (HasDigit ce) s = Inr (hasDigit ce s)"
| "apply_call (HasSymbol ce) s = Inr (hasSymbol ce s)"
| "apply_call (HasUppercase ce) s = Inr (hasUppercase ce s)"
| "apply_call (HasLowercase ce) s = hasLowercase ce s"
| "apply_call (Label name) s = label_schema name s"
| "apply_call (IsEmail ce) s = Inr (isEmail ce s)"
| "apply_call (IsRequired ce) s = Inr (isRequired ce s)"
| "apply_call (Matches name ce) s = matches name ce s"

fun calls :: "call list \<Rightarrow> schema \<Rightarrow> exn + schema" where
  "calls [] s = Inr s"
| "calls (c # cs) s = (case apply_call c s of Inl e \<Rightarrow> Inl e | Inr s' \<Rightarrow> calls cs s')"

section \<open>The validator\<close>

record validation =
  isValid :: bool
  errors :: "message list"

text \<open>
  Modelled from the spec: \<^verbatim>\<open>validate\<close> of \<^verbatim>\<open>validation.js\<close>, which is not among the
  sources, in its single-value mode: the input is one string and the schema one compiled
  schema. If \<^verbatim>\<open>required\<close> is set and the input is empty, it fails with only the
  required message. Otherwise every rule of the compiled list is evaluated against the
  input in list order and every failing rule's message is collected. A rule without a
  pattern (the match rule, which the spec evaluates in match-pair mode, on a pair of
  values) has nothing to test against a single string and reports nothing here.
\<close>

definition fails :: "string \<Rightarrow> entry \<Rightarrow> bool" where
  "fails input r = (case pattern r of None \<Rightarrow> False | Some p \<Rightarrow> \<not> test p input)"

definition validate :: "string \<Rightarrow> compiled \<Rightarrow> validation" where
  "validate input c =
     (if required c \<noteq> None \<and> input = [] then
        \<lparr>isValid = False, errors = [the (required c)]\<rparr>
      else
        (let failing = map error (filter (fails input) (rules c)) in
         \<lparr>isValid = (failing = []), errors = failing\<rparr>))"

section \<open>lib/uppercase.js\<close>

text \<open>
  The validator returns \<^verbatim>\<open>pattern.test(value) || errorMessage\<close>: a boolean or a string.
  The pattern is \<^verbatim>\<open>/[A-Z]/\<close>.
\<close>

datatype js_value = JBool bool | JString string

definition pattern_test :: "string \<Rightarrow> bool" where
  "pattern_test v = list_ex (char_between 65 90) v"

text \<open>The inner function \<^verbatim>\<open>uppercase\<close>, with the \<^verbatim>\<open>errorMessage\<close> it closes over.\<close>

definition uppercase :: "string \<Rightarrow> string \<Rightarrow> js_value" where
  "uppercase errorMessage v = (if pattern_test v then JBool True else JString errorMessage)"

text \<open>The default export, the factory, which the source names \<^verbatim>\<open>lowercase\<close>.\<close>

definition lowercase :: "string \<Rightarrow> string \<Rightarrow> js_value" where
  "lowercase errorMessage = uppercase errorMessage"

section \<open>Notions used in the statements and proofs\<close>

text \<open>
  The match rule for the property \<open>p\<close>: an object with only an \<^verbatim>\<open>error\<close> field, which
  holds the catalogue's match message for \<open>p\<close> or a custom message. The builder keeps
  this true of an instance: \<^verbatim>\<open>matchingProperty\<close> and the key \<^verbatim>\<open>rules.matchingProperty\<close>
  are set together, the name is not empty, and the object under the key is the match
  rule for that name.
\<close>

definition match_rule :: "string \<Rightarrow> entry \<Rightarrow> bool" where
  "match_rule p m =
     (val m = None \<and> pattern m = None \<and>
      (case error m of M_matches n \<Rightarrow> n = p | M_custom t \<Rightarrow> t \<noteq> [] | _ \<Rightarrow> False))"

definition inv_match :: "schema \<Rightarrow> bool" where
  "inv_match s =
     (case schema_matchingProperty s of
        None \<Rightarrow> map_of (rules_other s) K_matchingProperty = None
      | Some p \<Rightarrow>
          p \<noteq> [] \<and>
          (case map_of (rules_other s) K_matchingProperty of
             None \<Rightarrow> False
           | Some m \<Rightarrow> match_rule p m))"

text \<open>
  Every object of the rules mapping other than the one under \<^verbatim>\<open>matchingProperty\<close>
  has a pattern.
\<close>

definition has_pattern :: "key \<times> entry \<Rightarrow> bool" where
  "has_pattern ke = (fst ke = K_matchingProperty \<or> pattern (snd ke) \<noteq> None)"

definition own_has_pattern :: "ref \<Rightarrow> bool" where
  "own_has_pattern r = (case r of Shared \<Rightarrow> True | Own e \<Rightarrow> pattern e \<noteq> None)"

definition inv_patterns :: "schema \<Rightarrow> bool" where
  "inv_patterns s =
     (list_all has_pattern (rules_other s) \<and> own_has_pattern (rules_minimum s)
      \<and> own_has_pattern (rules_maximum s))"

text \<open>The same for the two shared default objects.\<close>

definition defaults_have_patterns :: "defaults \<Rightarrow> bool" where
  "defaults_have_patterns d =
     (pattern (DEFAULT_minimum d) \<noteq> None \<and> pattern (DEFAULT_maximum d) \<noteq> None)"

text \<open>The key \<^verbatim>\<open>rules.email\<close> is there and holds the email expression.\<close>

definition has_email :: "schema \<Rightarrow> bool" where
  "has_email s =
     (case map_of (rules_other s) K_email of None \<Rightarrow> False | Some e \<Rightarrow> pattern e = Some P_email)"

text \<open>
  A bound that \<^verbatim>\<open>min\<close> or \<^verbatim>\<open>max\<close> has set: the slot holds an object of the instance,
  and that object, a copy of a catalogue descriptor, has no \<^verbatim>\<open>value\<close> field.
\<close>

definition explicit :: "ref \<Rightarrow> bool" where
  "explicit r = (case r of Shared \<Rightarrow> False | Own e \<Rightarrow> val e = None)"

text \<open>
  The object \<^verbatim>\<open>rules.minimum\<close> after the block of \<^verbatim>\<open>validateSchema\<close> that derives an
  unset minimum.
\<close>

definition derived_minimum :: "defaults \<Rightarrow> schema \<Rightarrow> entry" where
  "derived_minimum d s =
     (if val (minimum_object d s) = Some DEFAULT_MIN
      then \<lparr>val = Some (requiredChars s), pattern = Some (P_minLength (requiredChars s)),
            error = M_minLength (requiredChars s)\<rparr>
      else minimum_object d s)"

text \<open>
  The number of character-class rules attached to an instance: how many of the four
  keys are in its rules mapping.
\<close>

definition class_rules :: "schema \<Rightarrow> nat" where
  "class_rules s =
     length (filter (\<lambda>k. map_of (rules_other s) k \<noteq> None)
               [K_digit, K_symbol, K_uppercase, K_lowercase])"

text \<open>
  The keys of the four character-class rules, and what a chain without \<^verbatim>\<open>isEmail\<close> and
  \<^verbatim>\<open>matches\<close> keeps true of the added keys: no key twice, and class keys only.
\<close>

definition is_class_key :: "key \<Rightarrow> bool" where
  "is_class_key k = (k = K_digit \<or> k = K_symbol \<or> k = K_uppercase \<or> k = K_lowercase)"

definition inv_class_keys :: "schema \<Rightarrow> bool" where
  "inv_class_keys s =
     (distinct (map fst (rules_other s)) \<and> list_all (\<lambda>ke. is_class_key (fst ke)) (rules_other s))"

section \<open>Lemmas\<close>

lemmas builder_defs =
  min_schema_def max_schema_def hasDigit_def hasSymbol_def hasUppercase_def hasLowercase_def
  label_schema_def isEmail_def isRequired_def matches_def validateLength_def
  validateStringInput_def getMaxLengthRule_def getMinLengthRule_def getMatchesRule_def
  DEFAULT_MIN_def with_customError_def truthy_def

lemmas compile_defs =
  validateSchema_def derive_minimum_def delete_values_def update_minimum_def update_maximum_def
  minimum_object_def maximum_object_def js_gt_def js_lt_def Object_values_rules_def
  requiredChars_def Object_keys_rules_length_def Object_keys_DEFAULT_RULES_length_def

lemma map_of_assign: "map_of (assign k e kvs) k' = (if k' = k then Some e else map_of kvs k')"
  by (induction kvs) auto

lemma keys_assign: "fst ` set (assign k e kvs) = insert k (fst ` set kvs)"
  by (induction kvs) (force split: if_splits)+

lemma distinct_assign: "distinct (map fst kvs) \<Longrightarrow> distinct (map fst (assign k e kvs))"
  by (induction kvs) (auto simp: keys_assign)

lemma inv_match_new: "inv_match new_Schema"
  by (simp add: inv_match_def new_Schema_def)

lemma inv_match_call: "apply_call c s = Inr s' \<Longrightarrow> inv_match s \<Longrightarrow> inv_match s'"
  by (cases c)
     (auto simp: inv_match_def match_rule_def builder_defs map_of_assign Let_def
           split: if_splits option.splits sum.splits)

lemma inv_match_calls: "calls cs s = Inr s' \<Longrightarrow> inv_match s \<Longrightarrow> inv_match s'"
  by (induction cs arbitrary: s) (auto split: sum.splits dest: inv_match_call)

lemma has_pattern_assign:
  "list_all has_pattern kvs \<Longrightarrow> has_pattern (k, e) \<Longrightarrow> list_all has_pattern (assign k e kvs)"
  by (induction kvs) (auto simp: has_pattern_def)

lemma has_pattern_map_of:
  "list_all has_pattern kvs \<Longrightarrow> map_of kvs k = Some e \<Longrightarrow> has_pattern (k, e)"
  by (auto simp: list_all_iff dest: map_of_SomeD)

lemma inv_patterns_new: "inv_patterns new_Schema"
  by (simp add: inv_patterns_def new_Schema_def own_has_pattern_def)

lemma inv_patterns_call: "apply_call c s = Inr s' \<Longrightarrow> inv_patterns s \<Longrightarrow> inv_patterns s'"
proof (cases c)
  case (HasLowercase ce)
  assume a: "apply_call c s = Inr s'" and i: "inv_patterns s"
  let ?rs = "assign K_lowercase LOWERCASE (rules_other s)"
  have rs: "list_all has_pattern ?rs"
    using i by (simp add: inv_patterns_def has_pattern_assign has_pattern_def LOWERCASE_def)
  show ?thesis
  proof (cases "truthy ce")
    case False
    with a i rs HasLowercase show ?thesis
      by (auto simp: hasLowercase_def inv_patterns_def Let_def)
  next
    case True
    with a HasLowercase obtain u where u: "map_of ?rs K_uppercase = Some u"
      and s': "s' = s\<lparr>rules_other := assign K_uppercase (with_customError ce u) ?rs\<rparr>"
      by (auto simp: hasLowercase_def Let_def split: option.splits)
    from has_pattern_map_of [OF rs u] have "has_pattern (K_uppercase, with_customError ce u)"
      by (simp add: has_pattern_def with_customError_def split: option.splits)
    with rs s' i show ?thesis
      by (simp add: inv_patterns_def has_pattern_assign)
  qed
qed (auto simp: inv_patterns_def builder_defs own_has_pattern_def has_pattern_assign
       has_pattern_def DIGIT_def SYMBOL_def UPPERCASE_def EMAIL_def
       split: if_splits option.splits sum.splits)

lemma inv_patterns_calls: "calls cs s = Inr s' \<Longrightarrow> inv_patterns s \<Longrightarrow> inv_patterns s'"
  by (induction cs arbitrary: s) (auto split: sum.splits dest: inv_patterns_call)

lemma required_call:
  "apply_call c s = Inr s' \<Longrightarrow> schema_required s \<noteq> None \<or> (\<exists>ce. c = IsRequired ce)
   \<Longrightarrow> schema_required s' \<noteq> None"
  by (cases c) (auto simp: builder_defs Let_def split: if_splits option.splits sum.splits)

lemma required_calls:
  "calls cs s = Inr s' \<Longrightarrow> schema_required s \<noteq> None \<or> (\<exists>ce. IsRequired ce \<in> set cs)
   \<Longrightarrow> schema_required s' \<noteq> None"
proof (induction cs arbitrary: s)
  case Nil
  then show ?case by simp
next
  case (Cons c cs)
  from Cons.prems(1) obtain s1 where s1: "apply_call c s = Inr s1" and rest: "calls cs s1 = Inr s'"
    by (auto split: sum.splits)
  from Cons.prems(2)
  have "schema_required s \<noteq> None \<or> (\<exists>ce. c = IsRequired ce) \<or> (\<exists>ce. IsRequired ce \<in> set cs)"
    by auto
  with required_call [OF s1]
  have "schema_required s1 \<noteq> None \<or> (\<exists>ce. IsRequired ce \<in> set cs)" by blast
  with Cons.IH [OF rest] show ?case .
qed

lemma matching_call:
  "apply_call c s = Inr s' \<Longrightarrow>
   (schema_matchingProperty s' \<noteq> None) = (schema_matchingProperty s \<noteq> None \<or> (\<exists>p ce. c = Matches p ce))"
  by (cases c) (auto simp: builder_defs Let_def split: if_splits option.splits sum.splits)

lemma matching_calls:
  "calls cs s = Inr s' \<Longrightarrow>
   (schema_matchingProperty s' \<noteq> None) =
     (schema_matchingProperty s \<noteq> None \<or> (\<exists>p ce. Matches p ce \<in> set cs))"
proof (induction cs arbitrary: s)
  case Nil
  then show ?case by simp
next
  case (Cons c cs)
  from Cons.prems obtain s1 where s1: "apply_call c s = Inr s1" and rest: "calls cs s1 = Inr s'"
    by (auto split: sum.splits)
  from Cons.IH [OF rest] matching_call [OF s1] show ?case by auto
qed

lemma email_call: "apply_call c s = Inr s' \<Longrightarrow> has_email s \<or> (\<exists>ce. c = IsEmail ce) \<Longrightarrow> has_email s'"
  by (cases c)
     (auto simp: has_email_def builder_defs map_of_assign EMAIL_def Let_def
           split: if_splits option.splits sum.splits)

lemma email_calls:
  "calls cs s = Inr s' \<Longrightarrow> has_email s \<or> (\<exists>ce. IsEmail ce \<in> set cs) \<Longrightarrow> has_email s'"
proof (induction cs arbitrary: s)
  case Nil
  then show ?case by simp
next
  case (Cons c cs)
  from Cons.prems(1) obtain s1 where s1: "apply_call c s = Inr s1" and rest: "calls cs s1 = Inr s'"
    by (auto split: sum.splits)
  from Cons.prems(2) have "has_email s \<or> (\<exists>ce. c = IsEmail ce) \<or> (\<exists>ce. IsEmail ce \<in> set cs)"
    by auto
  with email_call [OF s1] have "has_email s1 \<or> (\<exists>ce. IsEmail ce \<in> set cs)" by blast
  with Cons.IH [OF rest] show ?case .
qed

lemma explicit_min_call:
  "apply_call c s = Inr s' \<Longrightarrow> explicit (rules_minimum s) \<or> (\<exists>a ce. c = Min a ce)
   \<Longrightarrow> explicit (rules_minimum s')"
  by (cases c) (auto simp: explicit_def builder_defs Let_def split: if_splits option.splits sum.splits)

lemma explicit_max_call:
  "apply_call c s = Inr s' \<Longrightarrow> explicit (rules_maximum s) \<or> (\<exists>a ce. c = Max a ce)
   \<Longrightarrow> explicit (rules_maximum s')"
  by (cases c) (auto simp: explicit_def builder_defs Let_def split: if_splits option.splits sum.splits)

lemma explicit_min_calls:
  "calls cs s = Inr s' \<Longrightarrow> explicit (rules_minimum s) \<or> (\<exists>a ce. Min a ce \<in> set cs)
   \<Longrightarrow> explicit (rules_minimum s')"
proof (induction cs arbitrary: s)
  case Nil
  then show ?case by simp
next
  case (Cons c cs)
  from Cons.prems(1) obtain s1 where s1: "apply_call c s = Inr s1" and rest: "calls cs s1 = Inr s'"
    by (auto split: sum.splits)
  from Cons.prems(2)
  have "explicit (rules_minimum s) \<or> (\<exists>a ce. c = Min a ce) \<or> (\<exists>a ce. Min a ce \<in> set cs)"
    by auto
  with explicit_min_call [OF s1]
  have "explicit (rules_minimum s1) \<or> (\<exists>a ce. Min a ce \<in> set cs)" by blast
  with Cons.IH [OF rest] show ?case .
qed

lemma explicit_max_calls:
  "calls cs s = Inr s' \<Longrightarrow> explicit (rules_maximum s) \<or> (\<exists>a ce. Max a ce \<in> set cs)
   \<Longrightarrow> explicit (rules_maximum s')"
proof (induction cs arbitrary: s)
  case Nil
  then show ?case by simp
next
  case (Cons c cs)
  from Cons.prems(1) obtain s1 where s1: "apply_call c s = Inr s1" and rest: "calls cs s1 = Inr s'"
    by (auto split: sum.splits)
  from Cons.prems(2)
  have "explicit (rules_maximum s) \<or> (\<exists>a ce. c = Max a ce) \<or> (\<exists>a ce. Max a ce \<in> set cs)"
    by auto
  with explicit_max_call [OF s1]
  have "explicit (rules_maximum s1) \<or> (\<exists>a ce. Max a ce \<in> set cs)" by blast
  with Cons.IH [OF rest] show ?case .
qed

lemma requiredChars_eq: "requiredChars s = int (length (rules_other s))"
  by (simp add: requiredChars_def Object_keys_rules_length_def Object_keys_DEFAULT_RULES_length_def)

lemma update_minimum_schema:
  "rules_other (snd (update_minimum f d s)) = rules_other s"
  "rules_maximum (snd (update_minimum f d s)) = rules_maximum s"
  "schema_label (snd (update_minimum f d s)) = schema_label s"
  "schema_required (snd (update_minimum f d s)) = schema_required s"
  "schema_matchingProperty (snd (update_minimum f d s)) = schema_matchingProperty s"
  "DEFAULT_maximum (fst (update_minimum f d s)) = DEFAULT_maximum d"
  by (simp_all add: update_minimum_def split: ref.splits)

lemma update_maximum_schema:
  "rules_other (snd (update_maximum f d s)) = rules_other s"
  "rules_minimum (snd (update_maximum f d s)) = rules_minimum s"
  "schema_label (snd (update_maximum f d s)) = schema_label s"
  "schema_required (snd (update_maximum f d s)) = schema_required s"
  "schema_matchingProperty (snd (update_maximum f d s)) = schema_matchingProperty s"
  "DEFAULT_minimum (fst (update_maximum f d s)) = DEFAULT_minimum d"
  by (simp_all add: update_maximum_def split: ref.splits)

lemma minimum_object_update_minimum:
  "minimum_object (fst (update_minimum f d s)) (snd (update_minimum f d s)) = f (minimum_object d s)"
  by (simp add: update_minimum_def minimum_object_def split: ref.splits)

lemma maximum_object_update_minimum:
  "maximum_object (fst (update_minimum f d s)) (snd (update_minimum f d s)) = maximum_object d s"
  by (simp add: update_minimum_def maximum_object_def split: ref.splits)

lemma maximum_object_update_maximum:
  "maximum_object (fst (update_maximum f d s)) (snd (update_maximum f d s)) = f (maximum_object d s)"
  by (simp add: update_maximum_def maximum_object_def split: ref.splits)

lemma minimum_object_update_maximum:
  "minimum_object (fst (update_maximum f d s)) (snd (update_maximum f d s)) = minimum_object d s"
  by (simp add: update_maximum_def minimum_object_def split: ref.splits)

lemmas update_simps =
  update_minimum_schema update_maximum_schema minimum_object_update_minimum
  maximum_object_update_minimum maximum_object_update_maximum minimum_object_update_maximum

lemma derive_minimum_Inr:
  "\<exists>d1 s1. derive_minimum d s = Inr (d1, s1) \<and>
     rules_other s1 = rules_other s \<and> schema_label s1 = schema_label s \<and>
     schema_required s1 = schema_required s \<and>
     schema_matchingProperty s1 = schema_matchingProperty s \<and>
     minimum_object d1 s1 = derived_minimum d s \<and> maximum_object d1 s1 = maximum_object d s"
proof (cases "val (minimum_object d s) = Some DEFAULT_MIN")
  case False
  then show ?thesis by (simp add: derive_minimum_def derived_minimum_def)
next
  case True
  let ?f = "\<lambda>m. m\<lparr>val := Some (requiredChars s), error := M_minLength (requiredChars s),
                     pattern := Some (P_minLength (requiredChars s))\<rparr>"
  have "derive_minimum d s = Inr (update_minimum ?f d s)"
    using True by (simp add: derive_minimum_def getMinLengthRule_def requiredChars_eq)
  then have "derive_minimum d s = Inr (fst (update_minimum ?f d s), snd (update_minimum ?f d s))"
    by simp
  moreover have "?f (minimum_object d s) = derived_minimum d s"
    using True by (simp add: derived_minimum_def)
  ultimately show ?thesis
    by (metis update_minimum_schema(1,3,4,5) minimum_object_update_minimum
          maximum_object_update_minimum)
qed

lemma delete_values_result:
  "\<exists>d2 s2. delete_values d s = (d2, s2) \<and>
     rules_other s2 = rules_other s \<and> schema_label s2 = schema_label s \<and>
     schema_required s2 = schema_required s \<and>
     schema_matchingProperty s2 = schema_matchingProperty s \<and>
     minimum_object d2 s2 = (minimum_object d s)\<lparr>val := None\<rparr> \<and>
     maximum_object d2 s2 = (maximum_object d s)\<lparr>val := None\<rparr>"
  by (simp add: delete_values_def case_prod_beta update_simps prod_eq_iff)

lemma validateSchema_plain:
  assumes "\<not> truthy (schema_matchingProperty s)" and "map_of (rules_other s) K_email = None"
  shows "snd (validateSchema d s) =
     (if js_gt (val (derived_minimum d s)) (val (maximum_object d s))
      then Inl Error_INVALID_MIN_OVER_MAX
      else if js_lt (val (maximum_object d s)) (Some (requiredChars s))
              \<or> js_lt (val (derived_minimum d s)) (Some (requiredChars s))
      then Inl Error_INVALID_MIN_MAX
      else Inr \<lparr>label = schema_label s, required = schema_required s,
                matchingProperty = schema_matchingProperty s,
                rules = (derived_minimum d s)\<lparr>val := None\<rparr>
                        # (maximum_object d s)\<lparr>val := None\<rparr>
                        # map snd (rules_other s)\<rparr>)"
proof -
  from derive_minimum_Inr [of d s] obtain d1 s1 where
    d1: "derive_minimum d s = Inr (d1, s1)" and
    f1: "rules_other s1 = rules_other s" "schema_label s1 = schema_label s"
      "schema_required s1 = schema_required s"
      "schema_matchingProperty s1 = schema_matchingProperty s"
      "minimum_object d1 s1 = derived_minimum d s" "maximum_object d1 s1 = maximum_object d s"
    by blast
  from delete_values_result [of d1 s1] obtain d2 s2 where
    d2: "delete_values d1 s1 = (d2, s2)" and
    f2: "rules_other s2 = rules_other s1" "schema_label s2 = schema_label s1"
      "schema_required s2 = schema_required s1"
      "schema_matchingProperty s2 = schema_matchingProperty s1"
      "minimum_object d2 s2 = (minimum_object d1 s1)\<lparr>val := None\<rparr>"
      "maximum_object d2 s2 = (maximum_object d1 s1)\<lparr>val := None\<rparr>"
    by blast
  have rc: "requiredChars s1 = requiredChars s"
    by (simp add: requiredChars_eq f1)
  show ?thesis
    using assms by (simp add: validateSchema_def d1 d2 f1 f2 rc Object_values_rules_def)
qed

lemma validateSchema_match:
  "schema_matchingProperty s = Some q \<Longrightarrow> q \<noteq> [] \<Longrightarrow>
   map_of (rules_other s) K_matchingProperty = Some m \<Longrightarrow>
   validateSchema d s =
     ((d, s), Inr \<lparr>label = schema_label s, required = schema_required s,
                    matchingProperty = Some q, rules = [m]\<rparr>)"
  by (simp add: validateSchema_def truthy_def)

lemma validateSchema_email:
  "schema_matchingProperty s = None \<Longrightarrow> map_of (rules_other s) K_email = Some e \<Longrightarrow>
   validateSchema d s =
     ((d, s), Inr \<lparr>label = schema_label s, required = schema_required s,
                    matchingProperty = None, rules = [e]\<rparr>)"
  by (simp add: validateSchema_def truthy_def)

lemma validateSchema_required:
  assumes "snd (validateSchema d s) = Inr c"
  shows "required c = schema_required s"
proof (cases "truthy (schema_matchingProperty s)")
  case True
  with assms show ?thesis by (auto simp: validateSchema_def)
next
  case False
  show ?thesis
  proof (cases "map_of (rules_other s) K_email")
    case (Some e)
    with assms False show ?thesis by (auto simp: validateSchema_def)
  next
    case None
    from assms validateSchema_plain [OF False None, of d] show ?thesis
      by (auto split: if_splits)
  qed
qed

lemma derived_minimum_explicit:
  "explicit (rules_minimum s) \<Longrightarrow> val (derived_minimum d s) = None"
  by (auto simp: derived_minimum_def minimum_object_def explicit_def split: ref.splits)

lemma maximum_object_explicit:
  "explicit (rules_maximum s) \<Longrightarrow> val (maximum_object d s) = None"
  by (auto simp: maximum_object_def explicit_def split: ref.splits)

lemma validateSchema_explicit:
  assumes "explicit (rules_minimum s)" and "explicit (rules_maximum s)"
  shows "\<exists>c. snd (validateSchema d s) = Inr c"
proof (cases "truthy (schema_matchingProperty s)")
  case True
  then show ?thesis by (simp add: validateSchema_def)
next
  case False
  show ?thesis
  proof (cases "map_of (rules_other s) K_email")
    case (Some e)
    with False show ?thesis by (simp add: validateSchema_def)
  next
    case None
    show ?thesis
      by (simp add: validateSchema_plain [OF False None] derived_minimum_explicit [OF assms(1)]
            maximum_object_explicit [OF assms(2)] js_gt_def js_lt_def)
  qed
qed

lemma defaults_have_patterns_initial: "defaults_have_patterns (DEFAULT_RULES dmax)"
  by (simp add: defaults_have_patterns_def DEFAULT_RULES_def)

lemma defaults_have_patterns_update_minimum:
  "defaults_have_patterns d \<Longrightarrow> pattern (f (DEFAULT_minimum d)) \<noteq> None \<Longrightarrow>
   defaults_have_patterns (fst (update_minimum f d s))"
  by (simp add: update_minimum_def defaults_have_patterns_def split: ref.splits)

lemma defaults_have_patterns_update_maximum:
  "defaults_have_patterns d \<Longrightarrow> pattern (f (DEFAULT_maximum d)) \<noteq> None \<Longrightarrow>
   defaults_have_patterns (fst (update_maximum f d s))"
  by (simp add: update_maximum_def defaults_have_patterns_def split: ref.splits)

lemma defaults_have_patterns_derive_minimum:
  assumes "defaults_have_patterns d" and "derive_minimum d s = Inr (d1, s1)"
  shows "defaults_have_patterns d1"
proof (cases "val (minimum_object d s) = Some DEFAULT_MIN")
  case False
  with assms show ?thesis by (simp add: derive_minimum_def)
next
  case True
  let ?f = "\<lambda>m. m\<lparr>val := Some (requiredChars s), error := M_minLength (requiredChars s),
                     pattern := Some (P_minLength (requiredChars s))\<rparr>"
  from True assms(2) have "d1 = fst (update_minimum ?f d s)"
    by (simp add: derive_minimum_def getMinLengthRule_def requiredChars_eq prod_eq_iff)
  moreover have "defaults_have_patterns (fst (update_minimum ?f d s))"
    using assms(1) by (intro defaults_have_patterns_update_minimum) simp_all
  ultimately show ?thesis by simp
qed

lemma defaults_have_patterns_delete_values:
  assumes "defaults_have_patterns d" and "delete_values d s = (d2, s2)"
  shows "defaults_have_patterns d2"
proof -
  let ?del = "\<lambda>m::entry. m\<lparr>val := None\<rparr>"
  let ?u = "update_minimum ?del d s"
  have "defaults_have_patterns (fst ?u)"
    using assms(1) by (intro defaults_have_patterns_update_minimum) (simp_all add: defaults_have_patterns_def)
  then have "defaults_have_patterns (fst (update_maximum ?del (fst ?u) (snd ?u)))"
    by (intro defaults_have_patterns_update_maximum) (simp_all add: defaults_have_patterns_def)
  moreover from assms(2) have "d2 = fst (update_maximum ?del (fst ?u) (snd ?u))"
    by (simp add: delete_values_def case_prod_beta prod_eq_iff)
  ultimately show ?thesis by simp
qed

lemma defaults_have_patterns_validateSchema:
  assumes "defaults_have_patterns d"
  shows "defaults_have_patterns (fst (fst (validateSchema d s)))"
proof (cases "derive_minimum d s")
  case (Inl e)
  with assms show ?thesis
    by (simp add: validateSchema_def split: option.splits)
next
  case (Inr p)
  obtain d1 s1 where p: "p = (d1, s1)" by (cases p)
  with Inr assms have d1: "defaults_have_patterns d1"
    by (auto dest: defaults_have_patterns_derive_minimum)
  obtain d2 s2 where d2: "delete_values d1 s1 = (d2, s2)" by (cases "delete_values d1 s1")
  with d1 have "defaults_have_patterns d2" by (rule defaults_have_patterns_delete_values)
  with assms d1 Inr p d2 show ?thesis
    by (simp add: validateSchema_def split: option.splits)
qed

lemma derived_minimum_pattern:
  "pattern (minimum_object d s) \<noteq> None \<Longrightarrow> pattern (derived_minimum d s) \<noteq> None"
  by (simp add: derived_minimum_def)

lemma validateSchema_patterns:
  assumes "snd (validateSchema d s) = Inr c" and "schema_matchingProperty s = None"
    and "inv_patterns s" and "inv_match s" and "defaults_have_patterns d"
  shows "\<forall>r \<in> set (rules c). pattern r \<noteq> None"
proof -
  from assms(2,4) have nokey: "map_of (rules_other s) K_matchingProperty = None"
    by (simp add: inv_match_def)
  have others: "\<forall>r \<in> set (map snd (rules_other s)). pattern r \<noteq> None"
  proof
    fix r assume "r \<in> set (map snd (rules_other s))"
    then obtain k where kr: "(k, r) \<in> set (rules_other s)" by auto
    with nokey have "k \<noteq> K_matchingProperty"
      by (metis map_of_eq_None_iff fst_conv image_eqI)
    moreover from assms(3) kr have "has_pattern (k, r)"
      by (simp add: inv_patterns_def list_all_iff)
    ultimately show "pattern r \<noteq> None" by (simp add: has_pattern_def)
  qed
  from assms(2) have nt: "\<not> truthy (schema_matchingProperty s)" by (simp add: truthy_def)
  show ?thesis
  proof (cases "map_of (rules_other s) K_email")
    case (Some e)
    then have "(K_email, e) \<in> set (rules_other s)" by (rule map_of_SomeD)
    then have "e \<in> set (map snd (rules_other s))" by force
    with others have "pattern e \<noteq> None" by blast
    with assms(1,2) Some show ?thesis by (auto simp: validateSchema_def truthy_def)
  next
    case None
    from assms(3,5) have "pattern (minimum_object d s) \<noteq> None"
      by (auto simp: minimum_object_def inv_patterns_def own_has_pattern_def
            defaults_have_patterns_def split: ref.splits)
    then have mn: "pattern (derived_minimum d s) \<noteq> None" by (rule derived_minimum_pattern)
    from assms(3,5) have mx: "pattern (maximum_object d s) \<noteq> None"
      by (auto simp: maximum_object_def inv_patterns_def own_has_pattern_def
            defaults_have_patterns_def split: ref.splits)
    from assms(1) validateSchema_plain [OF nt None, of d] mn mx others show ?thesis
      by (auto split: if_splits)
  qed
qed

lemma list_all_assign: "list_all P kvs \<Longrightarrow> P (k, e) \<Longrightarrow> list_all P (assign k e kvs)"
  by (induction kvs) auto

lemma inv_class_keys_new: "inv_class_keys new_Schema"
  by (simp add: inv_class_keys_def new_Schema_def)

lemma inv_class_keys_assign:
  "inv_class_keys s \<Longrightarrow> is_class_key k \<Longrightarrow>
   inv_class_keys (s\<lparr>rules_other := assign k e (rules_other s)\<rparr>)"
  by (simp add: inv_class_keys_def distinct_assign list_all_assign)

lemma inv_class_keys_call:
  assumes "apply_call c s = Inr s'" and "inv_class_keys s"
    and "\<forall>ce. c \<noteq> IsEmail ce" and "\<forall>p ce. c \<noteq> Matches p ce"
  shows "inv_class_keys s'"
proof (cases c)
  case (HasLowercase ce)
  let ?s1 = "s\<lparr>rules_other := assign K_lowercase LOWERCASE (rules_other s)\<rparr>"
  have i1: "inv_class_keys ?s1"
    using assms(2) by (rule inv_class_keys_assign) (simp add: is_class_key_def)
  show ?thesis
  proof (cases "truthy ce")
    case False
    with assms(1) HasLowercase i1 show ?thesis
      by (auto simp: hasLowercase_def Let_def)
  next
    case True
    with assms(1) HasLowercase obtain u where
      "s' = ?s1\<lparr>rules_other := assign K_uppercase (with_customError ce u) (rules_other ?s1)\<rparr>"
      by (auto simp: hasLowercase_def Let_def split: option.splits)
    moreover have "inv_class_keys
        (?s1\<lparr>rules_other := assign K_uppercase (with_customError ce u) (rules_other ?s1)\<rparr>)"
      using i1 by (rule inv_class_keys_assign) (simp add: is_class_key_def)
    ultimately show ?thesis by simp
  qed
next
  case (HasDigit ce)
  with assms(1) have "s' = s\<lparr>rules_other := assign K_digit (with_customError ce DIGIT) (rules_other s)\<rparr>"
    by (auto simp: hasDigit_def)
  with inv_class_keys_assign [OF assms(2), of K_digit] show ?thesis
    by (simp add: is_class_key_def)
next
  case (HasSymbol ce)
  with assms(1) have "s' = s\<lparr>rules_other := assign K_symbol (with_customError ce SYMBOL) (rules_other s)\<rparr>"
    by (auto simp: hasSymbol_def)
  with inv_class_keys_assign [OF assms(2), of K_symbol] show ?thesis
    by (simp add: is_class_key_def)
next
  case (HasUppercase ce)
  with assms(1) have "s' = s\<lparr>rules_other := assign K_uppercase (with_customError ce UPPERCASE) (rules_other s)\<rparr>"
    by (auto simp: hasUppercase_def)
  with inv_class_keys_assign [OF assms(2), of K_uppercase] show ?thesis
    by (simp add: is_class_key_def)
qed (use assms in \<open>auto simp: inv_class_keys_def builder_defs isRequired_def
       split: if_splits sum.splits\<close>)

lemma inv_class_keys_calls:
  "calls cs s = Inr s' \<Longrightarrow> inv_class_keys s \<Longrightarrow> \<forall>ce. IsEmail ce \<notin> set cs \<Longrightarrow>
   \<forall>p ce. Matches p ce \<notin> set cs \<Longrightarrow> inv_class_keys s'"
proof (induction cs arbitrary: s)
  case Nil
  then show ?case by simp
next
  case (Cons c cs)
  from Cons.prems(1) obtain s1 where s1: "apply_call c s = Inr s1" and rest: "calls cs s1 = Inr s'"
    by (auto split: sum.splits)
  from Cons.prems(3,4) have "\<forall>ce. c \<noteq> IsEmail ce" "\<forall>p ce. c \<noteq> Matches p ce" by auto
  with s1 Cons.prems(2) have "inv_class_keys s1" by (rule inv_class_keys_call)
  moreover from Cons.prems(3,4) have "\<forall>ce. IsEmail ce \<notin> set cs" "\<forall>p ce. Matches p ce \<notin> set cs"
    by auto
  ultimately show ?case using Cons.IH [OF rest] by blast
qed

lemma class_rules_length:
  assumes "inv_class_keys s"
  shows "class_rules s = length (rules_other s)"
proof -
  let ?L = "[K_digit, K_symbol, K_uppercase, K_lowercase]"
  let ?K = "set (map fst (rules_other s))"
  have sub: "?K \<subseteq> set ?L"
    using assms by (auto simp: inv_class_keys_def list_all_iff is_class_key_def)
  have "class_rules s = length (filter (\<lambda>k. k \<in> ?K) ?L)"
    unfolding class_rules_def by (simp only: map_of_eq_None_iff set_map not_not)
  also have "\<dots> = card ({k. k \<in> ?K} \<inter> set ?L)"
    by (rule distinct_length_filter) simp
  also have "{k. k \<in> ?K} \<inter> set ?L = ?K" using sub by blast
  also have "card ?K = length (map fst (rules_other s))"
    using assms by (intro distinct_card) (simp add: inv_class_keys_def)
  finally show ?thesis by simp
qed

lemma no_email_key: "inv_class_keys s \<Longrightarrow> map_of (rules_other s) K_email = None"
  by (auto simp: inv_class_keys_def list_all_iff is_class_key_def map_of_eq_None_iff)

lemma shared_min_call:
  "apply_call c s = Inr s' \<Longrightarrow> rules_minimum s = Shared \<Longrightarrow> \<forall>a ce. c \<noteq> Min a ce
   \<Longrightarrow> rules_minimum s' = Shared"
  by (cases c) (auto simp: builder_defs Let_def split: if_splits option.splits sum.splits)

lemma shared_min_calls:
  "calls cs s = Inr s' \<Longrightarrow> rules_minimum s = Shared \<Longrightarrow> \<forall>a ce. Min a ce \<notin> set cs
   \<Longrightarrow> rules_minimum s' = Shared"
proof (induction cs arbitrary: s)
  case Nil
  then show ?case by simp
next
  case (Cons c cs)
  from Cons.prems(1) obtain s1 where s1: "apply_call c s = Inr s1" and rest: "calls cs s1 = Inr s'"
    by (auto split: sum.splits)
  from Cons.prems(3) have "\<forall>a ce. c \<noteq> Min a ce" by auto
  with s1 Cons.prems(2) have "rules_minimum s1 = Shared" by (rule shared_min_call)
  moreover from Cons.prems(3) have "\<forall>a ce. Min a ce \<notin> set cs" by auto
  ultimately show ?case using Cons.IH [OF rest] by blast
qed

text \<open>
  The first compilation in a module whose defaults are untouched: for a chain without
  \<^verbatim>\<open>min\<close>, \<^verbatim>\<open>isEmail\<close> and \<^verbatim>\<open>matches\<close>, the minimum rule of the output is the
  min-length rule of the number of attached character-class rules.
\<close>

lemma first_compilation_derives_minimum:
  assumes "calls cs new_Schema = Inr s"
    and "\<forall>a ce. Min a ce \<notin> set cs" and "\<forall>ce. IsEmail ce \<notin> set cs"
    and "\<forall>p ce. Matches p ce \<notin> set cs"
    and "snd (validateSchema (DEFAULT_RULES dmax) s) = Inr c"
  shows "hd (rules c) =
           \<lparr>val = None, pattern = Some (P_minLength (int (class_rules s))),
            error = M_minLength (int (class_rules s))\<rparr>"
proof -
  have keys: "inv_class_keys s"
    using inv_class_keys_calls [OF assms(1) inv_class_keys_new assms(3,4)] .
  have shared: "rules_minimum s = Shared"
    using shared_min_calls [OF assms(1) _ assms(2)] by (simp add: new_Schema_def)
  from matching_calls [OF assms(1)] assms(4) have "schema_matchingProperty s = None"
    by (simp add: new_Schema_def)
  then have nt: "\<not> truthy (schema_matchingProperty s)" by (simp add: truthy_def)
  have k: "requiredChars s = int (class_rules s)"
    by (simp add: requiredChars_eq class_rules_length [OF keys])
  have "derived_minimum (DEFAULT_RULES dmax) s =
          \<lparr>val = Some (int (class_rules s)), pattern = Some (P_minLength (int (class_rules s))),
           error = M_minLength (int (class_rules s))\<rparr>"
    using shared k by (simp add: derived_minimum_def minimum_object_def DEFAULT_RULES_def)
  with assms(5) validateSchema_plain [OF nt no_email_key [OF keys], of "DEFAULT_RULES dmax"]
  show ?thesis by (auto split: if_splits)
qed

lemmas eval_defs =
  builder_defs compile_defs new_Schema_def DEFAULT_RULES_def DIGIT_def SYMBOL_def UPPERCASE_def
  LOWERCASE_def EMAIL_def REQUIRED_def validate_def fails_def char_between_def is_symbol_char_def

section \<open>The claims\<close>

text \<open>
  Claim C1: for every valid bound \<open>n\<close>, \<^verbatim>\<open>min(n)\<close> installs a minimum rule whose pattern
  tests "string length \<open>\<ge>\<close> n"; in particular
  \<^verbatim>\<open>Schema().min(5).max(7).hasDigit().hasSymbol()\<close>, compiled, rejects the four-character
  string \<^verbatim>\<open>ab1$\<close> with a minimum-length message.

  The source of \<^verbatim>\<open>min\<close> copies \<^verbatim>\<open>Rules.getMaxLengthRule(value)\<close>. The theorem runs the
  example: the object under \<^verbatim>\<open>minimum\<close> tests "length \<open>\<le>\<close> 5" and carries the
  maximum-length message, compilation succeeds, and \<^verbatim>\<open>ab1$\<close> is valid, with no message
  at all.
\<close>

theorem min_installs_maximum_rule:
  "\<exists>s c. calls [Min 5 None, Max 7 None, HasDigit None, HasSymbol None] new_Schema = Inr s \<and>
     rules_minimum s = Own \<lparr>val = None, pattern = Some (P_maxLength 5), error = M_maxLength 5\<rparr> \<and>
     snd (validateSchema d s) = Inr c \<and>
     validate ''ab1$'' c = \<lparr>isValid = True, errors = []\<rparr>"
  by (simp add: eval_defs)

text \<open>The same for every bound: what \<^verbatim>\<open>min(n)\<close> stores and what its pattern tests.\<close>

lemma min_schema_installs:
  "0 \<le> n \<Longrightarrow>
   min_schema n None s =
     Inr (s\<lparr>rules_minimum := Own \<lparr>val = None, pattern = Some (P_maxLength n), error = M_maxLength n\<rparr>\<rparr>)"
  by (simp add: builder_defs)

lemma test_installed_minimum: "test (P_maxLength n) v = (int (length v) \<le> n)"
  by simp

text \<open>
  Claim C2: for every builder state with neither email nor matchingProperty set,
  compilation fails if and only if the configured minimum exceeds the configured
  maximum, or either bound is smaller than the number of enabled character-class rules,
  for every pair of explicitly set bounds.

  In the source, \<^verbatim>\<open>min\<close> and \<^verbatim>\<open>max\<close> store a copy of a catalogue descriptor, which has
  no \<^verbatim>\<open>value\<close> field, so \<^verbatim>\<open>validateSchema\<close> compares \<^verbatim>\<open>undefined\<close> and none of its
  three tests can hold. The theorem: once both bounds are set explicitly, compilation
  never fails, whatever the bounds and the other rules. The witness is
  \<^verbatim>\<open>new Schema().min(7).max(5)\<close>, which compiles although 7 > 5.
\<close>

theorem explicit_bounds_never_fail:
  assumes "calls cs new_Schema = Inr s" and "Min a ca \<in> set cs" and "Max b cb \<in> set cs"
  shows "\<exists>c. snd (validateSchema d s) = Inr c"
proof -
  from explicit_min_calls [OF assms(1)] assms(2) have "explicit (rules_minimum s)" by blast
  moreover from explicit_max_calls [OF assms(1)] assms(3) have "explicit (rules_maximum s)" by blast
  ultimately show ?thesis by (rule validateSchema_explicit)
qed

theorem explicit_bounds_never_fail_witness:
  "\<not> isl (calls [Min 7 None, Max 5 None] new_Schema) \<and>
   (\<exists>c. snd (validateSchema (DEFAULT_RULES 255) (projr (calls [Min 7 None, Max 5 None] new_Schema)))
          = Inr c)"
proof -
  define s where "s = projr (calls [Min 7 None, Max 5 None] new_Schema)"
  have s: "calls [Min 7 None, Max 5 None] new_Schema = Inr s"
    unfolding s_def by (simp add: eval_defs)
  from explicit_bounds_never_fail [OF s, of 7 None 5 None "DEFAULT_RULES 255"]
  have "\<exists>c. snd (validateSchema (DEFAULT_RULES 255) s) = Inr c" by simp
  moreover from s have "\<not> isl (calls [Min 7 None, Max 5 None] new_Schema)" by simp
  ultimately show ?thesis unfolding s_def by blast
qed

text \<open>
  Claim C3: for every compiled schema on which \<^verbatim>\<open>isRequired()\<close> was called, whatever else
  was configured, validating the empty string fails with exactly the required message
  as the only error.

  The builder and the compilation are those of the source; the validator is the one
  modelled from the spec. The message is the one that \<^verbatim>\<open>isRequired\<close> stored, which
  every path of \<^verbatim>\<open>validateSchema\<close> copies to the compiled schema.
\<close>

theorem required_empty_input:
  assumes "calls cs new_Schema = Inr s" and "IsRequired ce \<in> set cs"
    and "snd (validateSchema d s) = Inr c"
  shows "\<exists>m. schema_required s = Some m \<and> required c = Some m \<and>
             validate [] c = \<lparr>isValid = False, errors = [m]\<rparr>"
proof -
  from required_calls [OF assms(1)] assms(2) obtain m where m: "schema_required s = Some m"
    by auto
  with validateSchema_required [OF assms(3)] have "required c = Some m" by simp
  with m show ?thesis by (simp add: validate_def)
qed

theorem required_empty_input_witness:
  "validate []
     (projr (snd (validateSchema (DEFAULT_RULES 255)
        (projr (calls [Min 5 None, HasDigit None, IsRequired None, HasSymbol None] new_Schema)))))
   = \<lparr>isValid = False, errors = [M_required]\<rparr>"
proof -
  let ?cs = "[Min 5 None, HasDigit None, IsRequired None, HasSymbol None]"
  define s where "s = projr (calls ?cs new_Schema)"
  define c where "c = projr (snd (validateSchema (DEFAULT_RULES 255) s))"
  have s: "calls ?cs new_Schema = Inr s"
    unfolding s_def by (simp add: eval_defs)
  have c: "snd (validateSchema (DEFAULT_RULES 255) s) = Inr c"
    unfolding c_def s_def by (simp add: eval_defs)
  have r: "schema_required s = Some M_required"
    unfolding s_def by (simp add: eval_defs)
  from required_empty_input [OF s _ c, of None] r show ?thesis
    unfolding c_def s_def by auto
qed

text \<open>
  Claim C4: for every non-empty custom error string \<open>e\<close>, \<^verbatim>\<open>hasLowercase(e)\<close> attaches
  the lowercase rule with its message overridden to \<open>e\<close> and leaves the message of the
  uppercase rule unchanged.

  The source writes \<open>e\<close> to \<^verbatim>\<open>rules.uppercase.error\<close>. The theorem: with an uppercase
  rule attached, the lowercase rule keeps its default message and the uppercase rule
  gets \<open>e\<close>; without one, the call throws a \<^verbatim>\<open>TypeError\<close>.
\<close>

theorem hasLowercase_custom_error:
  assumes "e \<noteq> []"
  shows "(case map_of (rules_other s) K_uppercase of
            None \<Rightarrow> hasLowercase (Some e) s = Inl TypeError
          | Some u \<Rightarrow>
              (\<exists>s'. hasLowercase (Some e) s = Inr s' \<and>
                 map_of (rules_other s') K_lowercase = Some LOWERCASE \<and>
                 map_of (rules_other s') K_uppercase = Some (u\<lparr>error := M_custom e\<rparr>)))"
  using assms
  by (simp add: hasLowercase_def truthy_def with_customError_def map_of_assign split: option.splits)

theorem hasLowercase_custom_error_witness:
  "hasLowercase (Some ''lower'') new_Schema = Inl TypeError \<and>
   (\<exists>s'. hasLowercase (Some ''lower'') (hasUppercase None new_Schema) = Inr s' \<and>
      map_of (rules_other s') K_lowercase =
        Some \<lparr>val = None, pattern = Some P_lowercase, error = M_lowercase\<rparr> \<and>
      map_of (rules_other s') K_uppercase =
        Some \<lparr>val = None, pattern = Some P_uppercase, error = M_custom ''lower''\<rparr>)"
  using hasLowercase_custom_error [of "''lower''" new_Schema]
    hasLowercase_custom_error [of "''lower''" "hasUppercase None new_Schema"]
  by (simp add: new_Schema_def hasUppercase_def with_customError_def UPPERCASE_def LOWERCASE_def)

text \<open>
  Claim C5: for every number \<open>n \<ge> 0\<close>, after \<^verbatim>\<open>min(n)\<close> the getter \<^verbatim>\<open>minimum\<close> returns
  \<open>n\<close>, and after \<^verbatim>\<open>max(n)\<close> the getter \<^verbatim>\<open>maximum\<close> returns \<open>n\<close>.

  The getters read the \<^verbatim>\<open>value\<close> field of the object in the slot, and the object that
  \<^verbatim>\<open>min\<close> and \<^verbatim>\<open>max\<close> store, a copy of a catalogue descriptor, has none. The theorem:
  after either setter the getter returns \<^verbatim>\<open>undefined\<close>. Only a bound that was never set
  reads as a number (the last part of the witness).
\<close>

theorem bound_getters_after_setters:
  assumes "0 \<le> n"
  shows "(\<exists>s'. min_schema n ce s = Inr s' \<and> minimum d s' = None) \<and>
         (\<exists>s'. max_schema n ce s = Inr s' \<and> maximum d s' = None)"
  using assms
  by (cases ce)
     (simp_all add: builder_defs minimum_def maximum_def minimum_object_def maximum_object_def)

theorem bound_getters_after_setters_witness:
  "minimum (DEFAULT_RULES 255) (projr (min_schema 4 None new_Schema)) = None \<and>
   maximum (DEFAULT_RULES 255) (projr (max_schema 7 None new_Schema)) = None \<and>
   minimum (DEFAULT_RULES 255) new_Schema = Some 0"
  using bound_getters_after_setters [of 4 None new_Schema "DEFAULT_RULES 255"]
    bound_getters_after_setters [of 7 None new_Schema "DEFAULT_RULES 255"]
  by (auto simp: minimum_def minimum_object_def new_Schema_def DEFAULT_RULES_def DEFAULT_MIN_def)

text \<open>
  Claim C6: for every schema on which \<^verbatim>\<open>matches(p)\<close> was called, compilation returns an
  object whose rules array contains exactly one entry, the match rule, whatever length,
  character-class or email rules were also configured; label, required and
  matchingProperty are preserved in the output.

  In the theorem \<open>q\<close> is the name that \<^verbatim>\<open>matches\<close> stored and \<open>m\<close> the object under
  \<^verbatim>\<open>rules.matchingProperty\<close>, the match rule for \<open>q\<close>.
\<close>

theorem matches_exclusive:
  assumes "calls cs new_Schema = Inr s" and "Matches p ce \<in> set cs"
  shows "\<exists>q m. schema_matchingProperty s = Some q \<and>
           map_of (rules_other s) K_matchingProperty = Some m \<and> match_rule q m \<and>
           validateSchema d s =
             ((d, s), Inr \<lparr>label = schema_label s, required = schema_required s,
                            matchingProperty = Some q, rules = [m]\<rparr>)"
proof -
  from matching_calls [OF assms(1)] assms(2) obtain q where q: "schema_matchingProperty s = Some q"
    by auto
  have "inv_match s" using inv_match_calls [OF assms(1) inv_match_new] .
  with q obtain m where "q \<noteq> []" and "map_of (rules_other s) K_matchingProperty = Some m"
    and "match_rule q m"
    by (auto simp: inv_match_def split: option.splits)
  with q validateSchema_match [of s q m d] show ?thesis by simp
qed

theorem matches_exclusive_witness:
  "snd (validateSchema (DEFAULT_RULES 255)
      (projr (calls [Label ''Confirm'', Min 5 None, HasDigit None, IsEmail None,
                     Matches ''password'' (Some ''MUST MATCH''), IsRequired None] new_Schema)))
   = Inr \<lparr>label = Some ''Confirm'', required = Some M_required,
          matchingProperty = Some ''password'',
          rules = [\<lparr>val = None, pattern = None, error = M_custom ''MUST MATCH''\<rparr>]\<rparr>"
proof -
  let ?cs = "[Label ''Confirm'', Min 5 None, HasDigit None, IsEmail None,
              Matches ''password'' (Some ''MUST MATCH''), IsRequired None]"
  define s where "s = projr (calls ?cs new_Schema)"
  have s: "calls ?cs new_Schema = Inr s"
    unfolding s_def by (simp add: eval_defs)
  have f: "schema_label s = Some ''Confirm''" "schema_required s = Some M_required"
    "schema_matchingProperty s = Some ''password''"
    "map_of (rules_other s) K_matchingProperty
       = Some \<lparr>val = None, pattern = None, error = M_custom ''MUST MATCH''\<rparr>"
    unfolding s_def by (simp_all add: eval_defs)
  from matches_exclusive [OF s, of "''password''" "Some ''MUST MATCH''" "DEFAULT_RULES 255"] f
  show ?thesis unfolding s_def by auto
qed

text \<open>
  Claim C7: for every schema on which \<^verbatim>\<open>isEmail()\<close> was called and \<^verbatim>\<open>matches()\<close> was not,
  compilation returns an object whose rules array contains only the email rule, the
  configured length and character-class rules being absent, while the required message
  and the label are preserved.
\<close>

theorem email_exclusive:
  assumes "calls cs new_Schema = Inr s" and "IsEmail ce \<in> set cs"
    and "\<forall>p ce'. Matches p ce' \<notin> set cs"
  shows "\<exists>e. map_of (rules_other s) K_email = Some e \<and> pattern e = Some P_email \<and>
           validateSchema d s =
             ((d, s), Inr \<lparr>label = schema_label s, required = schema_required s,
                            matchingProperty = None, rules = [e]\<rparr>)"
proof -
  from matching_calls [OF assms(1)] assms(3) have none: "schema_matchingProperty s = None"
    by (simp add: new_Schema_def)
  from email_calls [OF assms(1)] assms(2) have "has_email s" by auto
  then obtain e where "map_of (rules_other s) K_email = Some e" and "pattern e = Some P_email"
    by (auto simp: has_email_def split: option.splits)
  with validateSchema_email [OF none, of e d] show ?thesis by simp
qed

theorem email_exclusive_witness:
  "snd (validateSchema (DEFAULT_RULES 255)
      (projr (calls [Label ''E-mail'', Min 5 None, Max 3 None, HasUppercase None, IsEmail None,
                     IsRequired None] new_Schema)))
   = Inr \<lparr>label = Some ''E-mail'', required = Some M_required, matchingProperty = None,
          rules = [\<lparr>val = None, pattern = Some P_email, error = M_email\<rparr>]\<rparr>"
proof -
  let ?cs = "[Label ''E-mail'', Min 5 None, Max 3 None, HasUppercase None, IsEmail None,
              IsRequired None]"
  define s where "s = projr (calls ?cs new_Schema)"
  have s: "calls ?cs new_Schema = Inr s"
    unfolding s_def by (simp add: eval_defs)
  have n: "\<forall>p ce'. Matches p ce' \<notin> set ?cs" by simp
  have f: "schema_label s = Some ''E-mail''" "schema_required s = Some M_required"
    "map_of (rules_other s) K_email = Some \<lparr>val = None, pattern = Some P_email, error = M_email\<rparr>"
    unfolding s_def by (simp_all add: eval_defs)
  from email_exclusive [OF s _ n, of None "DEFAULT_RULES 255"] f
  show ?thesis unfolding s_def by auto
qed

text \<open>
  Claim C8: for every schema on which \<^verbatim>\<open>min()\<close> was never called and neither email nor
  matchingProperty is set, compilation derives the minimum bound as exactly the count of
  attached character-class rules, replacing the sentinel unset value, and installs the
  corresponding min-length pattern and message.

  That holds for the first compilation (lemma \<open>first_compilation_derives_minimum\<close>).
  But \<^verbatim>\<open>rules.minimum\<close> of such a schema is the object \<^verbatim>\<open>DEFAULT_RULES.minimum\<close> itself,
  and \<^verbatim>\<open>validateSchema\<close> writes the derived rule into it and deletes its \<^verbatim>\<open>value\<close>. The
  theorem compiles \<^verbatim>\<open>new Schema().hasDigit()\<close> and then
  \<^verbatim>\<open>new Schema().hasDigit().hasSymbol()\<close>: the second schema has two character-class
  rules, finds no \<^verbatim>\<open>value\<close> equal to the sentinel, derives nothing, and its output
  carries the min-length rule of the first, for length 1.
\<close>

theorem second_compilation_keeps_minimum:
  assumes "1 \<le> dmax"
  shows "\<exists>d1 s1 c1 d2 s2 c2.
           validateSchema (DEFAULT_RULES dmax) (hasDigit None new_Schema) = ((d1, s1), Inr c1) \<and>
           hd (rules c1) = \<lparr>val = None, pattern = Some (P_minLength 1), error = M_minLength 1\<rparr> \<and>
           validateSchema d1 (hasSymbol None (hasDigit None new_Schema)) = ((d2, s2), Inr c2) \<and>
           class_rules (hasSymbol None (hasDigit None new_Schema)) = 2 \<and>
           hd (rules c2) = \<lparr>val = None, pattern = Some (P_minLength 1), error = M_minLength 1\<rparr>"
  using assms by (simp add: eval_defs class_rules_def)

theorem second_compilation_keeps_minimum_witness:
  "(1::int) \<le> 255 \<and>
   (\<exists>d1 s1 c1 d2 s2 c2.
      validateSchema (DEFAULT_RULES 255) (hasDigit None new_Schema) = ((d1, s1), Inr c1) \<and>
      hd (rules c1) = \<lparr>val = None, pattern = Some (P_minLength 1), error = M_minLength 1\<rparr> \<and>
      validateSchema d1 (hasSymbol None (hasDigit None new_Schema)) = ((d2, s2), Inr c2) \<and>
      class_rules (hasSymbol None (hasDigit None new_Schema)) = 2 \<and>
      hd (rules c2) = \<lparr>val = None, pattern = Some (P_minLength 1), error = M_minLength 1\<rparr>)"
  using second_compilation_keeps_minimum [of 255] by simp

text \<open>
  Claim C9: every element of the rules array returned by a successful compilation
  carries both a pattern and an error message; in particular the single rule in the
  compiled output of a schema configured with \<^verbatim>\<open>matches(p)\<close> has a pattern field.

  \<^verbatim>\<open>matches\<close> keeps only the \<^verbatim>\<open>error\<close> of the catalogue's match rule, so the compiled
  match rule has no pattern: the first theorem compiles \<^verbatim>\<open>new Schema().matches("password")\<close>.
  The second theorem is the claim as amended: the rules of a schema configured with
  \<^verbatim>\<open>matches\<close> are one object without a pattern, and every rule of any other compiled
  schema has a pattern. Every object has an \<^verbatim>\<open>error\<close> field by construction. The
  hypothesis on the store holds of the initial \<^verbatim>\<open>DEFAULT_RULES\<close> and is kept by every
  compilation (lemmas \<open>defaults_have_patterns_initial\<close> and
  \<open>defaults_have_patterns_validateSchema\<close>).
\<close>

theorem match_rule_has_no_pattern:
  "\<not> isl (snd (validateSchema (DEFAULT_RULES 255)
             (projr (calls [Matches ''password'' None] new_Schema)))) \<and>
   map pattern
     (rules (projr (snd (validateSchema (DEFAULT_RULES 255)
                      (projr (calls [Matches ''password'' None] new_Schema)))))) = [None]"
  by (simp add: eval_defs)

theorem compiled_rules_patterns:
  assumes "calls cs new_Schema = Inr s" and "snd (validateSchema d s) = Inr c"
    and "defaults_have_patterns d"
  shows "if (\<exists>p ce. Matches p ce \<in> set cs)
         then (\<exists>m. rules c = [m] \<and> pattern m = None)
         else (\<forall>r \<in> set (rules c). pattern r \<noteq> None)"
proof (cases "\<exists>p ce. Matches p ce \<in> set cs")
  case True
  with matching_calls [OF assms(1)] obtain q where q: "schema_matchingProperty s = Some q"
    by auto
  have "inv_match s" using inv_match_calls [OF assms(1) inv_match_new] .
  with q obtain m where "q \<noteq> []" and "map_of (rules_other s) K_matchingProperty = Some m"
    and "pattern m = None"
    by (auto simp: inv_match_def match_rule_def split: option.splits)
  with q assms(2) validateSchema_match [of s q m d] True show ?thesis by auto
next
  case False
  with matching_calls [OF assms(1)] have none: "schema_matchingProperty s = None"
    by (simp add: new_Schema_def)
  have "inv_match s" using inv_match_calls [OF assms(1) inv_match_new] .
  moreover have "inv_patterns s" using inv_patterns_calls [OF assms(1) inv_patterns_new] .
  ultimately show ?thesis
    using validateSchema_patterns [OF assms(2) none _ _ assms(3)] False by simp
qed

theorem compiled_rules_patterns_witness:
  "map pattern
     (rules (projr (snd (validateSchema (DEFAULT_RULES 255)
        (projr (calls [Max 7 None, HasDigit None, HasLowercase None] new_Schema))))))
     = [Some (P_minLength 2), Some (P_maxLength 7), Some P_digit, Some P_lowercase] \<and>
   (\<exists>m. rules (projr (snd (validateSchema (DEFAULT_RULES 255)
            (projr (calls [HasDigit None, Matches ''password'' None] new_Schema))))) = [m]
        \<and> pattern m = None)"
proof -
  let ?d = "DEFAULT_RULES 255"
  let ?cs = "[Max 7 None, HasDigit None, HasLowercase None]"
  let ?ms = "[HasDigit None, Matches ''password'' None]"
  define s where "s = projr (calls ?cs new_Schema)"
  define c where "c = projr (snd (validateSchema ?d s))"
  define t where "t = projr (calls ?ms new_Schema)"
  define b where "b = projr (snd (validateSchema ?d t))"
  have s: "calls ?cs new_Schema = Inr s"
    unfolding s_def by (simp add: eval_defs)
  have c: "snd (validateSchema ?d s) = Inr c"
    unfolding c_def s_def by (simp add: eval_defs)
  have t: "calls ?ms new_Schema = Inr t"
    unfolding t_def by (simp add: eval_defs)
  have b: "snd (validateSchema ?d t) = Inr b"
    unfolding b_def t_def by (simp add: eval_defs)
  have "\<forall>r \<in> set (rules c). pattern r \<noteq> None"
    using compiled_rules_patterns [OF s c defaults_have_patterns_initial] by simp
  moreover have "map pattern (rules c)
      = [Some (P_minLength 2), Some (P_maxLength 7), Some P_digit, Some P_lowercase]"
    unfolding c_def s_def by (simp add: eval_defs)
  moreover have "\<exists>m. rules b = [m] \<and> pattern m = None"
    using compiled_rules_patterns [OF t b defaults_have_patterns_initial] by simp
  ultimately show ?thesis unfolding c_def s_def b_def t_def by blast
qed

text \<open>
  Claim C10: for every error message \<open>m\<close> and every string value, the validator that
  the default export of \<^verbatim>\<open>lib/uppercase.js\<close> (a factory named \<^verbatim>\<open>lowercase\<close>) produces
  returns the boolean \<^verbatim>\<open>true\<close> when the value contains at least one character in A-Z,
  and otherwise returns the message \<open>m\<close> itself, a string, also when \<open>m\<close> is empty. It is
  a total function: nothing is thrown.
\<close>

theorem uppercase_validator: "lowercase m v =
     (if (\<exists>c \<in> set v. 65 \<le> (of_char c :: nat) \<and> (of_char c :: nat) \<le> 90) then JBool True
      else JString m)"
  by (simp add: lowercase_def uppercase_def pattern_test_def list_ex_iff char_between_def)

theorem uppercase_validator_witness: "lowercase ''no capitals'' ''passWord'' = JBool True \<and> lowercase ''no capitals'' ''password'' = JString ''no capitals'' \<and> lowercase [] ''password'' = JString []"
  using uppercase_validator [of "''no capitals''" "''passWord''"] uppercase_validator [of "''no capitals''" "''password''"] uppercase_validator [of "[]" "''password''"]
  by simp

end
